theory Spec2Isabelle
  imports Main
begin

section \<open>Text: characters and the string methods the program calls\<close>

text \<open>
  A Python \<open>str\<close> is modelled as a \<open>string\<close>, one \<open>char\<close> per code point. The character
  classes below are the ones Python uses on the ASCII range (code points 0 to 127), which
  is the range every label, keyword and example of the program lives in. A character from
  128 up is treated as a symbol without case that is neither whitespace, nor a digit, nor a
  word character; texts with such characters are outside what this development covers.
\<close>

definition uppers :: string where
  "uppers = ''ABCDEFGHIJKLMNOPQRSTUVWXYZ''"

definition lowers :: string where
  "lowers = ''abcdefghijklmnopqrstuvwxyz''"

definition digits :: string where
  "digits = ''0123456789''"

text \<open>\<open>str.isspace\<close>, also the class \<open>\s\<close> of \<open>re\<close> on a \<open>str\<close> pattern: tab, line feed,
  vertical tab, form feed, carriage return, the four separators 0x1C to 0x1F, and space.\<close>

definition is_space :: "char \<Rightarrow> bool" where
  "is_space c = (c \<in> set [CHR 0x09, CHR 0x0A, CHR 0x0B, CHR 0x0C, CHR 0x0D,
                           CHR 0x1C, CHR 0x1D, CHR 0x1E, CHR 0x1F, CHR 0x20])"

definition is_upper :: "char \<Rightarrow> bool" where
  "is_upper c = (c \<in> set uppers)"

definition is_lower :: "char \<Rightarrow> bool" where
  "is_lower c = (c \<in> set lowers)"

definition is_digit :: "char \<Rightarrow> bool" where
  "is_digit c = (c \<in> set digits)"

text \<open>The class \<open>\w\<close>: letters, digits and the underscore.\<close>

definition is_word :: "char \<Rightarrow> bool" where
  "is_word c = (is_upper c \<or> is_lower c \<or> is_digit c \<or> c = CHR ''_'')"

definition is_cased :: "char \<Rightarrow> bool" where
  "is_cased c = (is_upper c \<or> is_lower c)"

definition lower_char :: "char \<Rightarrow> char" where
  "lower_char c = (case map_of (zip uppers lowers) c of Some d \<Rightarrow> d | None \<Rightarrow> c)"

definition upper_char :: "char \<Rightarrow> char" where
  "upper_char c = (case map_of (zip lowers uppers) c of Some d \<Rightarrow> d | None \<Rightarrow> c)"

text \<open>\<open>str.lower()\<close>.\<close>

definition str_lower :: "string \<Rightarrow> string" where
  "str_lower s = map lower_char s"

text \<open>\<open>str.strip()\<close>: whitespace removed at both ends.\<close>

definition str_strip :: "string \<Rightarrow> string" where
  "str_strip s = rev (dropWhile is_space (rev (dropWhile is_space s)))"

text \<open>\<open>str.title()\<close>: a character that follows a cased character is lower-cased, any other
  is upper-cased; the flag is whether the previous character was cased.\<close>

fun title_from :: "bool \<Rightarrow> string \<Rightarrow> string" where
  "title_from prev [] = []"
| "title_from prev (c # cs) =
     (if prev then lower_char c else upper_char c) # title_from (is_cased c) cs"

definition str_title :: "string \<Rightarrow> string" where
  "str_title s = title_from False s"

text \<open>\<open>str.replace(old, new)\<close>: every occurrence of \<open>old\<close>, found left to right without
  overlap, is replaced; an empty \<open>old\<close> puts \<open>new\<close> before every character and at the end.\<close>

function str_replace :: "string \<Rightarrow> string \<Rightarrow> string \<Rightarrow> string" where
  "str_replace old new s =
     (if old = [] then new @ concat (map (\<lambda>c. c # new) s)
      else if s = [] then []
      else if take (length old) s = old then new @ str_replace old new (drop (length old) s)
      else hd s # str_replace old new (tl s))"
  by pat_completeness auto
termination
  by (relation "measure (\<lambda>(old, new, s). length s)") auto

declare str_replace.simps [simp del]

text \<open>The exceptions of the program that nothing catches: the \<open>ValueError\<close> of \<open>int\<close> and
  the error \<open>st.secrets\<close> raises when the application has no secrets store.\<close>

datatype py_error = ValueError | SecretNotFoundError

text \<open>\<open>int(s)\<close> on a string of decimal digits, which is all that \<open>\d+\<close> lets through.
  Python's integers are unbounded, but \<open>int\<close> refuses a string of more than
  \<open>sys.get_int_max_str_digits()\<close> digits, 4300 unless configured otherwise, with a
  \<open>ValueError\<close>.\<close>

definition digit_val :: "char \<Rightarrow> int" where
  "digit_val c = int (of_char c - (48::nat))"

definition int_max_str_digits :: nat where
  "int_max_str_digits = 4300"

definition py_int :: "string \<Rightarrow> py_error + int" where
  "py_int s =
     (if int_max_str_digits < length s then Inl ValueError
      else Inr (foldl (\<lambda>a c. 10 * a + digit_val c) 0 s))"

section \<open>The fragment of \<open>re\<close> the program's patterns are written in\<close>

text \<open>
  The patterns of the program use literal characters, the classes \<open>\s\<close>, \<open>\d\<close> and \<open>.\<close>
  under the greedy repetitions \<open>*\<close> and \<open>+\<close>, the word boundary \<open>\b\<close>, alternation, and a
  single capturing group. \<open>rmatch\<close> is the backtracking matcher: it returns every way the
  pattern matches from a position, in the order in which the engine tries them, each with the
  end position and the span of group 1. The first element is the match \<open>re\<close> reports.
\<close>

datatype cclass = Space | Digit | Dot

datatype regex =
    Eps
  | Lit char
  | Star cclass
  | Plus cclass
  | Bound
  | Seq regex regex
  | Alt regex regex
  | Group regex

type_synonym mstate = "nat \<times> (nat \<times> nat) option"

text \<open>\<open>.\<close> without \<open>re.DOTALL\<close> is every character but the line feed.\<close>

fun in_class :: "cclass \<Rightarrow> char \<Rightarrow> bool" where
  "in_class Space c = is_space c"
| "in_class Digit c = is_digit c"
| "in_class Dot c = (c \<noteq> CHR 0x0A)"

text \<open>A literal under \<open>re.IGNORECASE\<close> matches both cases of a letter.\<close>

definition lit_eq :: "bool \<Rightarrow> char \<Rightarrow> char \<Rightarrow> bool" where
  "lit_eq ic p c = (if ic then lower_char p = lower_char c else p = c)"

text \<open>\<open>\b\<close> holds where exactly one of the characters before and after the position is a
  word character; the start and the end of the text count as non-word.\<close>

definition word_boundary :: "string \<Rightarrow> nat \<Rightarrow> bool" where
  "word_boundary s i =
     ((0 < i \<and> i \<le> length s \<and> is_word (s ! (i - 1))) \<noteq> (i < length s \<and> is_word (s ! i)))"

definition run :: "cclass \<Rightarrow> string \<Rightarrow> nat \<Rightarrow> nat" where
  "run k s i = length (takeWhile (in_class k) (drop i s))"

fun rmatch :: "bool \<Rightarrow> string \<Rightarrow> regex \<Rightarrow> mstate \<Rightarrow> mstate list" where
  "rmatch ic s Eps (i, g) = [(i, g)]"
| "rmatch ic s (Lit p) (i, g) =
     (if i < length s \<and> lit_eq ic p (s ! i) then [(Suc i, g)] else [])"
| "rmatch ic s (Star k) (i, g) = map (\<lambda>n. (i + n, g)) (rev [0 ..< Suc (run k s i)])"
| "rmatch ic s (Plus k) (i, g) = map (\<lambda>n. (i + n, g)) (rev [1 ..< Suc (run k s i)])"
| "rmatch ic s Bound (i, g) = (if word_boundary s i then [(i, g)] else [])"
| "rmatch ic s (Seq a b) (i, g) = concat (map (rmatch ic s b) (rmatch ic s a (i, g)))"
| "rmatch ic s (Alt a b) (i, g) = rmatch ic s a (i, g) @ rmatch ic s b (i, g)"
| "rmatch ic s (Group a) (i, g) = map (\<lambda>(j, _). (j, Some (i, j))) (rmatch ic s a (i, g))"

text \<open>\<open>re.search\<close>: the start positions 0 to \<open>len(s)\<close> are tried from the left, and the first
  one from which the pattern matches gives the match: its end and the span of group 1.
  \<open>None\<close> is Python's \<open>None\<close>, returned when no position matches.\<close>

definition match_at :: "bool \<Rightarrow> regex \<Rightarrow> string \<Rightarrow> nat \<Rightarrow> bool" where
  "match_at ic r s i = (rmatch ic s r (i, None) \<noteq> [])"

definition re_search :: "bool \<Rightarrow> regex \<Rightarrow> string \<Rightarrow> mstate option" where
  "re_search ic r s =
     (case find (match_at ic r s) [0 ..< Suc (length s)] of
        None \<Rightarrow> None
      | Some i \<Rightarrow> Some (hd (rmatch ic s r (i, None))))"

text \<open>\<open>match.group(1)\<close>. Every pattern of the program has the group on every path, so the
  second case does not arise.\<close>

definition group1 :: "string \<Rightarrow> mstate \<Rightarrow> string" where
  "group1 s m = (case snd m of Some (a, b) \<Rightarrow> take (b - a) (drop a s) | None \<Rightarrow> [])"

text \<open>A string read as a pattern that matches it literally. That is how \<open>re\<close> reads a string
  in which no character is one of its operators.\<close>

definition literal :: "string \<Rightarrow> regex" where
  "literal p = foldr (\<lambda>c r. Seq (Lit c) r) p Eps"

definition re_operators :: string where
  "re_operators = [CHR ''.'', CHR ''^'', CHR ''$'', CHR ''*'', CHR ''+'', CHR ''?'', CHR ''{'',
                   CHR ''}'', CHR ''['', CHR '']'', CHR 0x5C, CHR ''|'', CHR ''('', CHR '')'']"

definition plain_label :: "string \<Rightarrow> bool" where
  "plain_label p = list_all (\<lambda>c. \<not> List.member re_operators c) p"

section \<open>The helpers of \<open>match_my_resume.py\<close>\<close>

text \<open>\<open>extract_field\<close>: the pattern is \<open>rf"{field_name}:\s*(.*)"\<close>, searched with
  \<open>re.IGNORECASE\<close>. The label is spliced into the pattern; here it is read literally, which
  is how \<open>re\<close> reads the four labels the program passes and every other \<open>plain_label\<close>.\<close>

definition field_pattern :: "string \<Rightarrow> regex" where
  "field_pattern field_name =
     Seq (literal field_name) (Seq (Lit CHR '':'') (Seq (Star Space) (Group (Star Dot))))"

definition extract_field :: "string \<Rightarrow> string \<Rightarrow> string" where
  "extract_field text field_name =
     (case re_search True (field_pattern field_name) text of
        Some m \<Rightarrow> str_strip (group1 text m)
      | None \<Rightarrow> [])"

text \<open>\<open>extract_experience\<close>: the pattern is \<open>r"experience_years:\s*(\d+)"\<close>, searched with
  \<open>re.IGNORECASE\<close>; group 1 goes through \<open>int\<close>, whose exception is not caught.\<close>

definition experience_pattern :: regex where
  "experience_pattern =
     Seq (literal ''experience_years'') (Seq (Lit CHR '':'') (Seq (Star Space) (Group (Plus Digit))))"

definition extract_experience :: "string \<Rightarrow> py_error + int" where
  "extract_experience text =
     (case re_search True experience_pattern text of
        Some m \<Rightarrow> py_int (group1 text m)
      | None \<Rightarrow> Inr 0)"

text \<open>\<open>determine_title\<close>: seven patterns of the shape \<open>\b(w1|w2|...)\b\<close>, tried in an
  \<open>if\<close>/\<open>elif\<close> chain on the lower-cased \<open>f"{skills_text} {projects_text}"\<close>, without
  \<open>re.IGNORECASE\<close>. In \<open>node\.js\<close> the escaped dot is a literal dot.\<close>

fun alternatives :: "string list \<Rightarrow> regex" where
  "alternatives [] = Eps"
| "alternatives [w] = literal w"
| "alternatives (w # ws) = Alt (literal w) (alternatives ws)"

definition keyword_pattern :: "string list \<Rightarrow> regex" where
  "keyword_pattern ws = Seq Bound (Seq (Group (alternatives ws)) Bound)"

definition data_science_words :: "string list" where
  "data_science_words = [''data science'', ''pandas'', ''matplotlib'', ''data analyst'']"

definition machine_learning_words :: "string list" where
  "machine_learning_words = [''machine learning'', ''regression'', ''classification'', ''sklearn'']"

definition full_stack_words :: "string list" where
  "full_stack_words = [''full stack'', ''react'', ''node.js'', ''frontend'', ''backend'']"

definition web_design_words :: "string list" where
  "web_design_words = [''web design'', ''html'', ''css'', ''javascript'', ''web designer'']"

definition ai_words :: "string list" where
  "ai_words = [''artificial intelligence'', ''deep learning'']"

definition ui_ux_words :: "string list" where
  "ui_ux_words = [''ui/ux'', ''figma'', ''adobe xd'', ''user interface'', ''user experience'']"

definition game_words :: "string list" where
  "game_words = [''game dev'', ''unity'', ''unreal'', ''game design'', ''game developer'']"

text \<open>\<open>if re.search(p, combined)\<close> without flags: true when there is a match.\<close>

definition found :: "string list \<Rightarrow> string \<Rightarrow> bool" where
  "found ws combined = (re_search False (keyword_pattern ws) combined \<noteq> None)"

definition combined_text :: "string \<Rightarrow> string \<Rightarrow> string" where
  "combined_text skills_text projects_text = str_lower (skills_text @ '' '' @ projects_text)"

definition determine_title :: "string \<Rightarrow> string \<Rightarrow> string" where
  "determine_title skills_text projects_text =
     (let combined = combined_text skills_text projects_text in
      if found data_science_words combined then ''Data Scientist''
      else if found machine_learning_words combined then ''Machine Learning Engineer''
      else if found full_stack_words combined then ''Full Stack Developer''
      else if found web_design_words combined then ''Web Designer''
      else if found ai_words combined then ''AI Engineer''
      else if found ui_ux_words combined then ''UI/UX Designer''
      else if found game_words combined then ''Game Designer''
      else ''Unknown'')"

section \<open>Processing the uploaded files\<close>

text \<open>
  What \<open>fitz\<close> does with an upload is an input of the model: the document either cannot be
  opened, or it has pages, each of which gives its text or raises. \<open>extract_text_from_pdf\<close>
  adds the page texts to \<open>text\<close> inside a \<open>try\<close>; an exception ends the loop, reports an
  error, and the function returns what \<open>text\<close> holds by then. The second component of the
  result says whether the error was reported.
\<close>

datatype pdf_page = PageText string | PageError

datatype pdf = Unopenable | Pages "pdf_page list"

fun read_pages :: "string \<Rightarrow> pdf_page list \<Rightarrow> string \<times> bool" where
  "read_pages text [] = (text, False)"
| "read_pages text (PageText t # ps) = read_pages (text @ t) ps"
| "read_pages text (PageError # ps) = (text, True)"

fun extract_text_from_pdf :: "pdf \<Rightarrow> string \<times> bool" where
  "extract_text_from_pdf Unopenable = ([], True)"
| "extract_text_from_pdf (Pages ps) = read_pages [] ps"

record upload =
  file_name :: string
  payload :: pdf

record resume =
  name :: string
  resume_skills :: string
  projects :: string
  experience_years :: int
  email :: string
  resume_title :: string

text \<open>The dictionary \<open>resume_data\<close> of one upload, with its title. In
  \<open>extract_field(resume_text, "Name") or uploaded_file.name.replace(".pdf", "").title()\<close>
  the right operand is taken when the left one is the empty string. An exception of
  \<open>extract_experience\<close> leaves the dictionary unbuilt and ends the run.\<close>

definition resume_name :: "string \<Rightarrow> string \<Rightarrow> string" where
  "resume_name resume_text fname =
     (let n = extract_field resume_text ''Name'' in
      if n \<noteq> [] then n else str_title (str_replace ''.pdf'' [] fname))"

definition resume_data :: "string \<Rightarrow> string \<Rightarrow> py_error + resume" where
  "resume_data fname resume_text =
     (let skills = extract_field resume_text ''resume_skills'';
          projs = extract_field resume_text ''Projects'' in
      case extract_experience resume_text of
        Inl e \<Rightarrow> Inl e
      | Inr years \<Rightarrow>
          Inr \<lparr> name = resume_name resume_text fname,
                resume_skills = skills,
                projects = projs,
                experience_years = years,
                email = extract_field resume_text ''Email'',
                resume_title = determine_title skills projs \<rparr>)"

definition process_upload :: "upload \<Rightarrow> py_error + resume" where
  "process_upload u = resume_data (file_name u) (fst (extract_text_from_pdf (payload u)))"

text \<open>The loop over the uploads: the records are collected in upload order, and the first
  exception ends it.\<close>

fun all_resume_data :: "upload list \<Rightarrow> py_error + resume list" where
  "all_resume_data [] = Inr []"
| "all_resume_data (uploaded_file # uploaded_files) =
     (case process_upload uploaded_file of
        Inl e \<Rightarrow> Inl e
      | Inr row \<Rightarrow>
          (case all_resume_data uploaded_files of
             Inl e \<Rightarrow> Inl e
           | Inr rows \<Rightarrow> Inr (row # rows)))"

text \<open>The two boolean selections of the data frame keep the rows in their order.\<close>

definition selected_df :: "resume list \<Rightarrow> resume list" where
  "selected_df resume_df = filter (\<lambda>r. resume_title r \<noteq> ''Unknown'') resume_df"

definition rejected_df :: "resume list \<Rightarrow> resume list" where
  "rejected_df resume_df = filter (\<lambda>r. resume_title r = ''Unknown'') resume_df"

section \<open>Sending the e-mails\<close>

text \<open>
  The run leaves a trace of what it shows and what it hands to the mail server:
  \<open>st.error\<close>, \<open>st.warning\<close>, one \<open>Smtp\<close> entry for each message for which the \<open>with
  smtplib.SMTP(...)\<close> block is entered (with whether it ended without an exception), and the
  closing \<open>st.success\<close> with its two counts. What the mail server does is an input: from the
  trace so far and the message it answers \<open>None\<close>, or the text of the exception raised.
  The secrets are an input too: \<open>None\<close> when the application has no secrets store, in which
  case \<open>st.secrets.get\<close> raises, outside every \<open>try\<close>, and the handler ends there.
\<close>

record message =
  msg_subject :: string
  msg_from :: string
  msg_to :: string
  msg_body :: string

datatype effect =
    StError string
  | StWarning string
  | Smtp message bool
  | StSuccess nat nat

type_synonym server = "effect list \<Rightarrow> message \<Rightarrow> string option"

record secrets =
  EMAIL :: "string option"
  PASSWORD :: "string option"

text \<open>\<open>not v\<close> for a value of \<open>st.secrets.get\<close>: a missing key or an empty string.\<close>

fun missing :: "string option \<Rightarrow> bool" where
  "missing None = True"
| "missing (Some v) = (v = [])"

definition send_email ::
  "secrets option \<Rightarrow> server \<Rightarrow> string \<Rightarrow> string \<Rightarrow> string \<Rightarrow> effect list
     \<Rightarrow> py_error + bool \<times> effect list" where
  "send_email store srv recipient_email subject body tr =
     (case store of
        None \<Rightarrow> Inl SecretNotFoundError
      | Some sec \<Rightarrow>
          if missing (EMAIL sec) \<or> missing (PASSWORD sec)
          then Inr (False, tr @ [StError ''Email credentials not found in Streamlit secrets!''])
          else
            let msg = \<lparr> msg_subject = subject,
                        msg_from = (case EMAIL sec of Some a \<Rightarrow> a | None \<Rightarrow> []),
                        msg_to = recipient_email,
                        msg_body = body \<rparr>
            in case srv tr msg of
                 None \<Rightarrow> Inr (True, tr @ [Smtp msg True])
               | Some e \<Rightarrow>
                   Inr (False, tr @ [Smtp msg False,
                     StWarning (''Error sending email to '' @ recipient_email @ '': '' @ e)]))"

text \<open>Subject and body of the two kinds of message. The right single quotation mark in the
  body of the source is written as its three UTF-8 bytes.\<close>

definition selected_mail :: "resume \<Rightarrow> string \<times> string" where
  "selected_mail row =
     (''Congratulations! You've Been Selected'',
      ''Hi '' @ name row @ '', you'' @ [CHR 0xE2, CHR 0x80, CHR 0x99] @
      ''ve been selected for the role: '' @ resume_title row @ ''!'')"

definition rejected_mail :: "resume \<Rightarrow> string \<times> string" where
  "rejected_mail row =
     (''Application Update'',
      ''Sorry, your profile is not matching this job. We will meet soon.'')"

text \<open>One \<open>for _, row in df.iterrows()\<close> loop: a row with an empty address is skipped, the
  others are sent to, and the counter goes up when \<open>send_email\<close> returns \<open>True\<close>. An
  exception of \<open>send_email\<close> ends the loop and the handler.\<close>

fun send_rows ::
  "secrets option \<Rightarrow> server \<Rightarrow> (resume \<Rightarrow> string \<times> string) \<Rightarrow> resume list
     \<Rightarrow> nat \<times> effect list \<Rightarrow> py_error + nat \<times> effect list" where
  "send_rows store srv mail [] (sent, tr) = Inr (sent, tr)"
| "send_rows store srv mail (row # rows) (sent, tr) =
     (if email row = [] then send_rows store srv mail rows (sent, tr)
      else
        case send_email store srv (email row) (fst (mail row)) (snd (mail row)) tr of
          Inl e \<Rightarrow> Inl e
        | Inr (ok, tr') \<Rightarrow> send_rows store srv mail rows (if ok then Suc sent else sent, tr'))"

text \<open>The handler of the "Send Emails" button.\<close>

definition send_emails ::
  "secrets option \<Rightarrow> server \<Rightarrow> resume list \<Rightarrow> effect list
     \<Rightarrow> py_error + nat \<times> nat \<times> effect list" where
  "send_emails store srv resume_df tr =
     (case send_rows store srv selected_mail (selected_df resume_df) (0, tr) of
        Inl e \<Rightarrow> Inl e
      | Inr (selected_sent, tr1) \<Rightarrow>
          (case send_rows store srv rejected_mail (rejected_df resume_df) (0, tr1) of
             Inl e \<Rightarrow> Inl e
           | Inr (rejected_sent, tr2) \<Rightarrow>
               Inr (selected_sent, rejected_sent,
                    tr2 @ [StSuccess selected_sent rejected_sent])))"

section \<open>Notions the properties are stated with\<close>

text \<open>The classifier's rules as the ordered list the specification describes: the words of
  each pattern with the label it stands for, in the order of the \<open>if\<close>/\<open>elif\<close> chain.\<close>

definition spec_title_rules :: "(string list \<times> string) list" where
  "spec_title_rules =
     [(data_science_words, ''Data Scientist''),
      (machine_learning_words, ''Machine Learning Engineer''),
      (full_stack_words, ''Full Stack Developer''),
      (web_design_words, ''Web Designer''),
      (ai_words, ''AI Engineer''),
      (ui_ux_words, ''UI/UX Designer''),
      (game_words, ''Game Designer'')]"

text \<open>A record that has an address to send to.\<close>

definition addressed :: "resume \<Rightarrow> bool" where
  "addressed row = (email row \<noteq> [])"

text \<open>Readings of a trace: the messages handed to the mail server, the ones among them that
  went through, and the number of \<open>send_email\<close> calls the trace records (each call leaves
  either one \<open>st.error\<close> for missing credentials or one \<open>Smtp\<close> entry).\<close>

fun attempts :: "effect list \<Rightarrow> message list" where
  "attempts [] = []"
| "attempts (Smtp m ok # es) = m # attempts es"
| "attempts (StError t # es) = attempts es"
| "attempts (StWarning t # es) = attempts es"
| "attempts (StSuccess a b # es) = attempts es"








text \<open>A batch of three uploads: one text with pandas among its skills, one with unity, and
  one document that cannot be opened; and the three records they give.\<close>

definition sample_uploads :: "upload list" where
  "sample_uploads =
     [\<lparr> file_name = ''ann.pdf'',
        payload = Pages [PageText (''Name: Ann'' @ [CHR 0x0A] @ ''resume_skills: pandas'')] \<rparr>,
      \<lparr> file_name = ''bo.pdf'', payload = Pages [PageText ''resume_skills: unity''] \<rparr>,
      \<lparr> file_name = ''cy.pdf'', payload = Unopenable \<rparr>]"

definition sample_batch :: "resume list" where
  "sample_batch =
     [\<lparr> name = ''Ann'', resume_skills = ''pandas'', projects = [], experience_years = 0,
        email = [], resume_title = ''Data Scientist'' \<rparr>,
      \<lparr> name = ''Bo'', resume_skills = ''unity'', projects = [], experience_years = 0,
        email = [], resume_title = ''Game Designer'' \<rparr>,
      \<lparr> name = ''Cy'', resume_skills = [], projects = [], experience_years = 0,
        email = [], resume_title = ''Unknown'' \<rparr>]"

text \<open>Four records to send to: three matched ones, of which the second has no address, and
  one unmatched; a server that refuses the first recipient and accepts the others.\<close>

definition mail_batch :: "resume list" where
  "mail_batch =
     [\<lparr> name = ''Ann'', resume_skills = ''pandas'', projects = [], experience_years = 3,
        email = ''ann@example.org'', resume_title = ''Data Scientist'' \<rparr>,
      \<lparr> name = ''Bo'', resume_skills = ''unity'', projects = [], experience_years = 0,
        email = [], resume_title = ''Game Designer'' \<rparr>,
      \<lparr> name = ''Cy'', resume_skills = ''html'', projects = [], experience_years = 1,
        email = ''cy@example.org'', resume_title = ''Web Designer'' \<rparr>,
      \<lparr> name = ''Di'', resume_skills = [], projects = [], experience_years = 0,
        email = ''di@example.org'', resume_title = ''Unknown'' \<rparr>]"

definition picky_server :: server where
  "picky_server tr m = (if msg_to m = ''ann@example.org'' then Some ''refused'' else None)"


definition no_password :: secrets where
  "no_password = \<lparr> EMAIL = Some ''hr@example.org'', PASSWORD = None \<rparr>"

definition no_email :: secrets where
  "no_email = \<lparr> EMAIL = None, PASSWORD = Some ''secret'' \<rparr>"

text \<open>The string \<open>pat\<close> occurs in \<open>text\<close> at offset \<open>i\<close>, letter case ignored.\<close>

definition occurs_at :: "string \<Rightarrow> string \<Rightarrow> nat \<Rightarrow> bool" where
  "occurs_at pat text i =
     (i + length pat \<le> length text \<and>
      str_lower (take (length pat) (drop i text)) = str_lower pat)"

text \<open>What follows an occurrence of a label and its colon at offset \<open>i\<close>.\<close>

definition after_label :: "string \<Rightarrow> string \<Rightarrow> nat \<Rightarrow> string" where
  "after_label label text i = drop (i + length label + 1) text"

text \<open>At offset \<open>i\<close> there is \<open>experience_years:\<close> (any letter case), then whitespace or
  nothing, then a digit.\<close>

definition experience_at :: "string \<Rightarrow> nat \<Rightarrow> bool" where
  "experience_at text i =
     (occurs_at ''experience_years:'' text i \<and>
      (case dropWhile is_space (after_label ''experience_years'' text i) of
         [] \<Rightarrow> False
       | c # cs \<Rightarrow> is_digit c))"

text \<open>The digits read at such a place, and the number a string of digits writes in base ten:
  the value of each digit from a table, the string read from its last digit.\<close>

definition digits_at :: "string \<Rightarrow> nat \<Rightarrow> string" where
  "digits_at text i =
     takeWhile is_digit (dropWhile is_space (after_label ''experience_years'' text i))"

definition digit_number :: "char \<Rightarrow> int" where
  "digit_number c =
     (case map_of (zip digits [0, 1, 2, 3, 4, 5, 6, 7, 8, 9]) c of Some v \<Rightarrow> v | None \<Rightarrow> 0)"

fun decimal_from_last :: "string \<Rightarrow> int" where
  "decimal_from_last [] = 0"
| "decimal_from_last (c # cs) = digit_number c + 10 * decimal_from_last cs"

definition decimal :: "string \<Rightarrow> int" where
  "decimal ds = decimal_from_last (rev ds)"

text \<open>A text whose number has \<open>n\<close> digits, all of them 9.\<close>

definition nines_text :: "nat \<Rightarrow> string" where
  "nines_text n = ''experience_years: '' @ replicate n CHR ''9''"

text \<open>Two sample texts: a resume whose address comes under an upper-case label with spaces
  around it, and a text whose first \<open>experience_years:\<close> has no number after it.\<close>

definition sample_text :: string where
  "sample_text = ''Name: Alice'' @ [CHR 0x0A] @ ''EMAIL:  a@b.org ''"

definition sample_years :: string where
  "sample_years = ''Experience_Years: x, experience_years:  0042 yrs''"


section \<open>The field extractor matches inside longer words\<close>

text \<open>
  Claim C10. \<open>extract_field\<close> finds the label anywhere in the text, not only at the start of
  a line or of a word: in the text \<open>Nickname: Bob\<close>, which has no line that begins with
  \<open>Name:\<close>, the search for the label \<open>Name\<close> first matches at offset 4, in the middle of the
  word \<open>Nickname\<close> (there is no word boundary there), and the result is \<open>Bob\<close>.
\<close>

theorem extract_field_inside_word:
  "extract_field ''Nickname: Bob'' ''Name'' = ''Bob'' \<and>
   find (match_at True (field_pattern ''Name'') ''Nickname: Bob'')
        [0 ..< Suc (length ''Nickname: Bob'')] = Some 4 \<and>
   \<not> word_boundary ''Nickname: Bob'' 4"
proof (intro conjI)
  show "extract_field ''Nickname: Bob'' ''Name'' = ''Bob''"
    by code_simp
  show "find (match_at True (field_pattern ''Name'') ''Nickname: Bob'')
          [0 ..< Suc (length ''Nickname: Bob'')] = Some 4"
    by code_simp
  show "\<not> word_boundary ''Nickname: Bob'' 4"
    by code_simp
qed

section \<open>The classifier\<close>

text \<open>
  Claim C3. The rules are tried in their order and the first one that matches decides: when
  the rule at index \<open>i\<close> of the ordered list matches the combined text and no rule before it
  does, the title is the label of rule \<open>i\<close>, whatever the later rules do. In particular
  \<open>I use pandas and matplotlib\<close> gives \<open>Data Scientist\<close> and \<open>unity game developer\<close> gives
  \<open>Game Designer\<close>.
\<close>

theorem determine_title_first_match:
  assumes "i < length spec_title_rules"
    and "found (fst (spec_title_rules ! i)) (combined_text s p)"
    and "\<forall>j<i. \<not> found (fst (spec_title_rules ! j)) (combined_text s p)"
  shows "determine_title s p = snd (spec_title_rules ! i) \<and>
         determine_title ''I use pandas and matplotlib'' '''' = ''Data Scientist'' \<and>
         determine_title ''unity game developer'' '''' = ''Game Designer''"
proof (intro conjI)
  have len: "length spec_title_rules = 7"
    by (simp add: spec_title_rules_def)
  from assms(1) len consider "i = 0" | "i = 1" | "i = 2" | "i = 3" | "i = 4" | "i = 5" | "i = 6"
    by linarith
  then show "determine_title s p = snd (spec_title_rules ! i)"
  proof cases
    case 1
    with assms(2) show ?thesis
      by (simp add: spec_title_rules_def determine_title_def)
  next
    case 2
    with assms(2) assms(3) show ?thesis
      by (simp add: spec_title_rules_def determine_title_def)
  next
    case 3
    with assms(2) assms(3) show ?thesis
      by (simp add: spec_title_rules_def determine_title_def less_Suc_eq numeral_2_eq_2)
  next
    case 4
    with assms(2) assms(3) show ?thesis
      by (simp add: spec_title_rules_def determine_title_def less_Suc_eq numeral_3_eq_3)
  next
    case 5
    with assms(2) assms(3) show ?thesis
      by (simp add: spec_title_rules_def determine_title_def less_Suc_eq eval_nat_numeral)
  next
    case 6
    with assms(2) assms(3) show ?thesis
      by (simp add: spec_title_rules_def determine_title_def less_Suc_eq eval_nat_numeral)
  next
    case 7
    with assms(2) assms(3) show ?thesis
      by (simp add: spec_title_rules_def determine_title_def less_Suc_eq eval_nat_numeral)
  qed
  show "determine_title ''I use pandas and matplotlib'' '''' = ''Data Scientist''"
    by code_simp
  show "determine_title ''unity game developer'' '''' = ''Game Designer''"
    by code_simp
qed

text \<open>The text \<open>react and html\<close> matches the full-stack rule (index 2) and the web-design rule
  (index 3), and none before them: the earlier of the two gives the title.\<close>

theorem determine_title_first_match_witness:
  "found full_stack_words (combined_text ''react and html'' '''') \<and>
   found web_design_words (combined_text ''react and html'' '''') \<and>
   determine_title ''react and html'' '''' = ''Full Stack Developer''"
proof -
  have a: "2 < length spec_title_rules"
    by (simp add: spec_title_rules_def)
  have fs: "found full_stack_words (combined_text ''react and html'' '''')"
    by code_simp
  have wd: "found web_design_words (combined_text ''react and html'' '''')"
    by code_simp
  have c0: "\<not> found data_science_words (combined_text ''react and html'' '''')"
    by code_simp
  have c1: "\<not> found machine_learning_words (combined_text ''react and html'' '''')"
    by code_simp
  have b: "found (fst (spec_title_rules ! 2)) (combined_text ''react and html'' '''')"
    using fs by (simp add: spec_title_rules_def)
  have c: "\<forall>j<2. \<not> found (fst (spec_title_rules ! j)) (combined_text ''react and html'' '''')"
    using c0 c1 by (simp add: spec_title_rules_def less_2_cases_iff)
  have "determine_title ''react and html'' '''' = snd (spec_title_rules ! 2)"
    using determine_title_first_match [OF a b c] by simp
  then have "determine_title ''react and html'' '''' = ''Full Stack Developer''"
    by (simp add: spec_title_rules_def)
  with fs wd show ?thesis by simp
qed

lemma if_in_set: "a \<in> S \<Longrightarrow> b \<in> S \<Longrightarrow> (if c then a else b) \<in> S"
  by simp

text \<open>
  Claim C4. The title depends on the two texts only through the lower-cased
  \<open>skills + " " + projects\<close>; it is always one of the seven categories or \<open>Unknown\<close>; two
  empty texts give \<open>Unknown\<close>.
\<close>

theorem determine_title_range:
  "determine_title s p \<in>
     {''Data Scientist'', ''Machine Learning Engineer'', ''Full Stack Developer'',
      ''Web Designer'', ''AI Engineer'', ''UI/UX Designer'', ''Game Designer'', ''Unknown''} \<and>
   determine_title '''' '''' = ''Unknown'' \<and>
   (str_lower (s @ '' '' @ p) = str_lower (s' @ '' '' @ p') \<longrightarrow>
      determine_title s p = determine_title s' p')"
proof (intro conjI impI)
  show "determine_title s p \<in>
     {''Data Scientist'', ''Machine Learning Engineer'', ''Full Stack Developer'',
      ''Web Designer'', ''AI Engineer'', ''UI/UX Designer'', ''Game Designer'', ''Unknown''}"
    unfolding determine_title_def Let_def
    by (intro if_in_set) (rule insertI1 | rule insertI2)+
  show "determine_title '''' '''' = ''Unknown''"
    by code_simp
  assume "str_lower (s @ '' '' @ p) = str_lower (s' @ '' '' @ p')"
  then have "combined_text s p = combined_text s' p'"
    by (simp add: combined_text_def)
  then show "determine_title s p = determine_title s' p'"
    by (simp add: determine_title_def)
qed

theorem determine_title_range_witness:
  "str_lower (''Pandas'' @ '' '' @ ''X y'') = str_lower (''pandas x'' @ '' '' @ ''Y'') \<and>
   determine_title ''Pandas'' ''X y'' = determine_title ''pandas x'' ''Y'' \<and>
   determine_title ''Pandas'' ''X y'' = ''Data Scientist''"
proof -
  have e: "str_lower (''Pandas'' @ '' '' @ ''X y'') = str_lower (''pandas x'' @ '' '' @ ''Y'')"
    by code_simp
  have v: "determine_title ''Pandas'' ''X y'' = ''Data Scientist''"
    by code_simp
  from e determine_title_range [of "''Pandas''" "''X y''" "''pandas x''" "''Y''"]
  have "determine_title ''Pandas'' ''X y'' = determine_title ''pandas x'' ''Y''"
    by blast
  with e v show ?thesis by simp
qed

section \<open>The batch: names, unreadable documents, the partition\<close>

text \<open>
  Claim C5. A record is in the matched set exactly when it is in the batch and its title is
  not \<open>Unknown\<close>, and in the unmatched set exactly when its title is \<open>Unknown\<close>; no record
  is in both; the two sizes add up to the size of the batch; with three records of which
  exactly one has the title \<open>Unknown\<close>, the sizes are 2 and 1.
\<close>

theorem partition_by_title:
  "(r \<in> set (selected_df df) \<longleftrightarrow> r \<in> set df \<and> resume_title r \<noteq> ''Unknown'') \<and>
   (r \<in> set (rejected_df df) \<longleftrightarrow> r \<in> set df \<and> resume_title r = ''Unknown'') \<and>
   set (selected_df df) \<inter> set (rejected_df df) = {} \<and>
   length (selected_df df) + length (rejected_df df) = length df \<and>
   (length df = 3 \<and> length (filter (\<lambda>x. resume_title x = ''Unknown'') df) = 1 \<longrightarrow>
      length (selected_df df) = 2 \<and> length (rejected_df df) = 1)"
proof -
  have mem_sel: "r \<in> set (selected_df df) \<longleftrightarrow> r \<in> set df \<and> resume_title r \<noteq> ''Unknown''"
    unfolding selected_df_def by (simp only: set_filter mem_Collect_eq)
  have mem_rej: "r \<in> set (rejected_df df) \<longleftrightarrow> r \<in> set df \<and> resume_title r = ''Unknown''"
    unfolding rejected_df_def by (simp only: set_filter mem_Collect_eq)
  have disj: "set (selected_df df) \<inter> set (rejected_df df) = {}"
    unfolding selected_df_def rejected_df_def set_filter by blast
  have "length (filter (\<lambda>x. resume_title x = ''Unknown'') df) +
        length (filter (\<lambda>x. \<not> resume_title x = ''Unknown'') df) = length df"
    by (rule sum_length_filter_compl)
  then have total: "length (selected_df df) + length (rejected_df df) = length df"
    unfolding selected_df_def rejected_df_def by (simp only: add.commute)
  have three: "length df = 3 \<and> length (filter (\<lambda>x. resume_title x = ''Unknown'') df) = 1 \<longrightarrow>
      length (selected_df df) = 2 \<and> length (rejected_df df) = 1"
  proof
    assume h: "length df = 3 \<and> length (filter (\<lambda>x. resume_title x = ''Unknown'') df) = 1"
    then have "length (rejected_df df) = 1"
      unfolding rejected_df_def by (simp only:)
    with total h show "length (selected_df df) = 2 \<and> length (rejected_df df) = 1"
      by linarith
  qed
  from mem_sel mem_rej disj total three show ?thesis
    by (intro conjI)
qed

theorem partition_by_title_witness:
  "all_resume_data sample_uploads = Inr sample_batch \<and>
   length sample_batch = 3 \<and>
   length (filter (\<lambda>x. resume_title x = ''Unknown'') sample_batch) = 1 \<and>
   length (selected_df sample_batch) = 2 \<and> length (rejected_df sample_batch) = 1"
proof -
  have p: "all_resume_data sample_uploads = Inr sample_batch"
    by code_simp
  have a: "length sample_batch = 3"
    by (simp add: sample_batch_def)
  have b: "length (filter (\<lambda>x. resume_title x = ''Unknown'') sample_batch) = 1"
    by code_simp
  from a b partition_by_title [of "hd sample_batch" sample_batch]
  have "length (selected_df sample_batch) = 2 \<and> length (rejected_df sample_batch) = 1"
    by blast
  with p a b show ?thesis
    by simp
qed

text \<open>
  Claim C6. The name of a record is the extracted \<open>Name\<close> field when that is not empty, and
  otherwise comes from the file name. The fallback removes every occurrence of \<open>.pdf\<close> in the
  file name, not only the extension at its end: for \<open>my.pdf.resume.pdf\<close> without a name
  field the record is named \<open>My.Resume\<close>, where the file name without its extension,
  title-cased, is \<open>My.Pdf.Resume\<close>. For \<open>john_doe.pdf\<close> the two agree.
\<close>

theorem resume_name_inner_pdf:
  "resume_name [] ''my.pdf.resume.pdf'' = ''My.Resume'' \<and>
   str_title ''my.pdf.resume'' = ''My.Pdf.Resume'' \<and>
   resume_name [] ''john_doe.pdf'' = ''John_Doe''"
proof (intro conjI)
  show "resume_name [] ''my.pdf.resume.pdf'' = ''My.Resume''"
    by code_simp
  show "str_title ''my.pdf.resume'' = ''My.Pdf.Resume''"
    by code_simp
  show "resume_name [] ''john_doe.pdf'' = ''John_Doe''"
    by code_simp
qed

text \<open>
  Claim C9, as stated: the record of an unreadable document has all its fields empty, the
  name among them. It does not: the name falls back to the file name.
\<close>

theorem unreadable_document_name_counterexample:
  "process_upload \<lparr> file_name = ''john_doe.pdf'', payload = Unopenable \<rparr> =
     Inr \<lparr> name = ''John_Doe'', resume_skills = [], projects = [], experience_years = 0,
           email = [], resume_title = ''Unknown'' \<rparr>"
  by code_simp

text \<open>A failure on a later page keeps the text of the pages before it.\<close>

lemma extract_text_keeps_earlier_pages:
  "extract_text_from_pdf (Pages [PageText t, PageError]) = (t, True)"
  by simp

text \<open>
  Claim C9, amended. A document that cannot be opened, or whose first page cannot be read,
  gives the empty text with the error reported, and the record made from it has empty
  skills, projects and email, 0 years of experience and the title \<open>Unknown\<close>; its name is
  the file name with \<open>.pdf\<close> removed, title-cased.
\<close>

theorem unopenable_document_record:
  "extract_text_from_pdf Unopenable = ([], True) \<and>
   extract_text_from_pdf (Pages (PageError # ps)) = ([], True) \<and>
   process_upload \<lparr> file_name = f, payload = Unopenable \<rparr> =
     Inr \<lparr> name = str_title (str_replace ''.pdf'' [] f),
           resume_skills = [], projects = [], experience_years = 0, email = [],
           resume_title = ''Unknown'' \<rparr> \<and>
   process_upload \<lparr> file_name = f, payload = Pages (PageError # ps) \<rparr> =
     Inr \<lparr> name = str_title (str_replace ''.pdf'' [] f),
           resume_skills = [], projects = [], experience_years = 0, email = [],
           resume_title = ''Unknown'' \<rparr>"
proof -
  have n: "extract_field [] ''Name'' = []" by code_simp
  have s: "extract_field [] ''resume_skills'' = []" by code_simp
  have p: "extract_field [] ''Projects'' = []" by code_simp
  have e: "extract_field [] ''Email'' = []" by code_simp
  have x: "extract_experience [] = Inr 0" by code_simp
  have t: "determine_title [] [] = ''Unknown''" by code_simp
  have "resume_data f [] =
     Inr \<lparr> name = str_title (str_replace ''.pdf'' [] f),
           resume_skills = [], projects = [], experience_years = 0, email = [],
           resume_title = ''Unknown'' \<rparr>"
    unfolding resume_data_def resume_name_def Let_def n s p e x t by simp
  then show ?thesis
    by (simp add: process_upload_def)
qed


section \<open>Sending\<close>

lemma attempts_append: "attempts (a @ b) = attempts a @ attempts b"
  by (induction a rule: attempts.induct) simp_all



lemma attempts_replicate_error: "attempts (replicate n (StError t)) = []"
  by (induction n) simp_all

lemma send_email_missing:
  assumes "missing (EMAIL sec) \<or> missing (PASSWORD sec)"
  shows "send_email (Some sec) srv to subj body tr =
           Inr (False, tr @ [StError ''Email credentials not found in Streamlit secrets!''])"
  using assms unfolding send_email_def by (simp only: option.case if_True)


lemma send_email_no_store: "send_email None srv to subj body tr = Inl SecretNotFoundError"
  by (simp add: send_email_def)


text \<open>Without a secrets store the first record with an address ends the handler.\<close>

lemma send_rows_no_store:
  "send_rows None srv mail rows (sent, tr) =
     (if list_ex addressed rows then Inl SecretNotFoundError else Inr (sent, tr))"
  by (induction rows) (simp_all add: addressed_def send_email_no_store)

lemma send_emails_no_store:
  "send_emails None srv df tr =
     (if list_ex addressed df then Inl SecretNotFoundError else Inr (0, 0, tr @ [StSuccess 0 0]))"
proof -
  have "list_ex addressed df \<longleftrightarrow>
      list_ex addressed (selected_df df) \<or> list_ex addressed (rejected_df df)"
    unfolding selected_df_def rejected_df_def list_ex_iff by auto
  then show ?thesis
    unfolding send_emails_def send_rows_no_store by simp
qed

lemma send_rows_missing:
  assumes "missing (EMAIL sec) \<or> missing (PASSWORD sec)"
  shows "send_rows (Some sec) srv mail rows (sent, tr) =
           Inr (sent, tr @ replicate (length (filter addressed rows))
                             (StError ''Email credentials not found in Streamlit secrets!''))"
proof (induction rows arbitrary: tr)
  case Nil
  show ?case by simp
next
  case (Cons row rows)
  show ?case
  proof (cases "email row = []")
    case True
    then show ?thesis
      using Cons.IH [of tr] by (simp add: addressed_def)
  next
    case False
    then show ?thesis
      using Cons.IH [of "tr @ [StError ''Email credentials not found in Streamlit secrets!'']"]
      by (simp add: addressed_def send_email_missing [OF assms] del: replicate.simps
            add: replicate_Suc [symmetric] replicate_app_Cons_same)
  qed
qed





lemma missing_iff: "missing v \<longleftrightarrow> v = None \<or> v = Some []"
  by (cases v) simp_all

text \<open>
  Claim C7, as stated: with the credentials absent the send operation is aborted as a whole,
  with the failure reported to the user. It is not: the check sits in \<open>send_email\<close>, so the
  handler goes on through the records, shows the error once for each record that has an
  address, and ends with its report of success; with no such record it shows no error.
\<close>

theorem send_emails_not_aborted_counterexample:
  "send_emails (Some no_email) picky_server (take 3 mail_batch) [] =
     Inr (0, 0, [StError ''Email credentials not found in Streamlit secrets!'',
                 StError ''Email credentials not found in Streamlit secrets!'',
                 StSuccess 0 0]) \<and>
   send_emails (Some no_email) picky_server [mail_batch ! 1] [] = Inr (0, 0, [StSuccess 0 0])"
proof (intro conjI)
  show "send_emails (Some no_email) picky_server (take 3 mail_batch) [] =
     Inr (0, 0, [StError ''Email credentials not found in Streamlit secrets!'',
                 StError ''Email credentials not found in Streamlit secrets!'',
                 StSuccess 0 0])"
    by code_simp
  show "send_emails (Some no_email) picky_server [mail_batch ! 1] [] = Inr (0, 0, [StSuccess 0 0])"
    by code_simp
qed

text \<open>
  Claim C7, amended. When the secrets store is there and the sender address or the password
  is missing from it or empty, no message is handed to the mail server and the counts
  reported are 0 and 0. The operation is not aborted: the handler goes through all the
  records, the credentials error is shown once for each record with an address, matched
  ones first, and the trace ends with the report of 0 and 0.
\<close>

theorem send_emails_without_credentials:
  assumes "EMAIL sec = None \<or> EMAIL sec = Some [] \<or>
           PASSWORD sec = None \<or> PASSWORD sec = Some []"
  shows "send_emails (Some sec) srv df tr =
           Inr (0, 0,
             (tr @ replicate (length (filter addressed (selected_df df)))
                     (StError ''Email credentials not found in Streamlit secrets!''))
                @ replicate (length (filter addressed (rejected_df df)))
                     (StError ''Email credentials not found in Streamlit secrets!'')
                @ [StSuccess 0 0]) \<and>
         attempts
           ((tr @ replicate (length (filter addressed (selected_df df)))
                     (StError ''Email credentials not found in Streamlit secrets!''))
                @ replicate (length (filter addressed (rejected_df df)))
                     (StError ''Email credentials not found in Streamlit secrets!'')
                @ [StSuccess 0 0]) = attempts tr"
proof
  from assms have m: "missing (EMAIL sec) \<or> missing (PASSWORD sec)"
    by (auto simp add: missing_iff)
  show "send_emails (Some sec) srv df tr =
           Inr (0, 0,
             (tr @ replicate (length (filter addressed (selected_df df)))
                     (StError ''Email credentials not found in Streamlit secrets!''))
                @ replicate (length (filter addressed (rejected_df df)))
                     (StError ''Email credentials not found in Streamlit secrets!'')
                @ [StSuccess 0 0])"
    unfolding send_emails_def send_rows_missing [OF m] by simp
  show "attempts
           ((tr @ replicate (length (filter addressed (selected_df df)))
                     (StError ''Email credentials not found in Streamlit secrets!''))
                @ replicate (length (filter addressed (rejected_df df)))
                     (StError ''Email credentials not found in Streamlit secrets!'')
                @ [StSuccess 0 0]) = attempts tr"
    by (simp add: attempts_append attempts_replicate_error)
qed

theorem send_emails_without_credentials_witness:
  "PASSWORD no_password = None \<and>
   send_emails (Some no_password) picky_server mail_batch [] =
     Inr (0, 0, [StError ''Email credentials not found in Streamlit secrets!'',
                 StError ''Email credentials not found in Streamlit secrets!'',
                 StError ''Email credentials not found in Streamlit secrets!'',
                 StSuccess 0 0])"
proof -
  have m: "PASSWORD no_password = None"
    by (simp add: no_password_def)
  then have m': "EMAIL no_password = None \<or> EMAIL no_password = Some [] \<or>
      PASSWORD no_password = None \<or> PASSWORD no_password = Some []"
    by simp
  have s: "length (filter addressed (selected_df mail_batch)) = 2"
    by code_simp
  have r: "length (filter addressed (rejected_df mail_batch)) = 1"
    by code_simp
  have "send_emails (Some no_password) picky_server mail_batch [] =
      Inr (0, 0,
        ([] @ replicate (length (filter addressed (selected_df mail_batch)))
                (StError ''Email credentials not found in Streamlit secrets!''))
           @ replicate (length (filter addressed (rejected_df mail_batch)))
                (StError ''Email credentials not found in Streamlit secrets!'')
           @ [StSuccess 0 0])"
    using send_emails_without_credentials [OF m', of picky_server mail_batch "[]"] by blast
  then have "send_emails (Some no_password) picky_server mail_batch [] =
     Inr (0, 0, [StError ''Email credentials not found in Streamlit secrets!'',
                 StError ''Email credentials not found in Streamlit secrets!'',
                 StError ''Email credentials not found in Streamlit secrets!'',
                 StSuccess 0 0])"
    unfolding s r by (simp add: numeral_2_eq_2)
  with m show ?thesis by simp
qed



section \<open>How the two extraction patterns match\<close>

lemma lower_char_cases: "lower_char c = c \<or> lower_char c \<in> set lowers"
proof (cases "map_of (zip uppers lowers) c")
  case None
  then show ?thesis by (simp add: lower_char_def)
next
  case (Some d)
  then have "(c, d) \<in> set (zip uppers lowers)"
    by (rule map_of_SomeD)
  then have "d \<in> set lowers"
    by (rule set_zip_rightD)
  with Some show ?thesis by (simp add: lower_char_def)
qed

lemma lower_char_colon: "lower_char CHR '':'' = lower_char c \<longleftrightarrow> c = CHR '':''"
proof
  assume h: "lower_char CHR '':'' = lower_char c"
  have l: "lower_char CHR '':'' = CHR '':''"
    by code_simp
  have n: "CHR '':'' \<notin> set lowers"
    by code_simp
  from lower_char_cases [of c] h l n show "c = CHR '':''"
    by auto
next
  assume "c = CHR '':''"
  then show "lower_char CHR '':'' = lower_char c" by simp
qed

lemma occurs_at_Nil: "occurs_at [] s i \<longleftrightarrow> i \<le> length s"
  by (simp add: occurs_at_def str_lower_def)

lemma occurs_at_Cons:
  "occurs_at (c # cs) s i \<longleftrightarrow>
     i < length s \<and> lower_char c = lower_char (s ! i) \<and> occurs_at cs s (Suc i)"
proof (cases "i < length s")
  case True
  then have "drop i s = s ! i # drop (Suc i) s"
    by (simp add: Cons_nth_drop_Suc)
  with True show ?thesis
    by (auto simp add: occurs_at_def str_lower_def)
next
  case False
  then show ?thesis by (simp add: occurs_at_def)
qed

lemma occurs_at_snoc:
  "occurs_at (p @ [c]) s i \<longleftrightarrow>
     occurs_at p s i \<and> i + length p < length s \<and> lower_char c = lower_char (s ! (i + length p))"
proof (induction p arbitrary: i)
  case Nil
  show ?case
    by (auto simp add: occurs_at_Cons occurs_at_Nil)
next
  case (Cons a p)
  show ?case
    by (auto simp add: occurs_at_Cons Cons.IH)
qed

lemma rmatch_lit_seq:
  "rmatch True s (Seq (Lit c) r) (i, g) =
     (if i < length s \<and> lower_char c = lower_char (s ! i) then rmatch True s r (Suc i, g) else [])"
  by (auto simp add: lit_eq_def)

lemma literal_Nil: "literal [] = Eps"
  by (simp add: literal_def)

lemma literal_Cons: "literal (c # p) = Seq (Lit c) (literal p)"
  by (simp add: literal_def)

lemma rmatch_literal_seq:
  assumes "i \<le> length s"
  shows "rmatch True s (Seq (literal p) r) (i, g) =
           (if occurs_at p s i then rmatch True s r (i + length p, g) else [])"
  using assms
proof (induction p arbitrary: i)
  case Nil
  then show ?case
    by (simp add: literal_Nil occurs_at_Nil)
next
  case (Cons c p)
  show ?case
  proof (cases "i < length s \<and> lower_char c = lower_char (s ! i)")
    case True
    then have "Suc i \<le> length s" by simp
    from Cons.IH [OF this] True show ?thesis
      by (simp add: literal_Cons occurs_at_Cons lit_eq_def)
  next
    case False
    then show ?thesis
      by (auto simp add: literal_Cons occurs_at_Cons lit_eq_def)
  qed
qed

text \<open>The tail \<open>\s*(.*)\<close> always matches; its first match takes all the whitespace and then
  everything up to the line feed.\<close>

lemma run_drop: "drop (i + run k s i) s = dropWhile (in_class k) (drop i s)"
  unfolding run_def by (metis add.commute drop_drop dropWhile_eq_drop)

lemma run_take: "take (run k s i) (drop i s) = takeWhile (in_class k) (drop i s)"
  unfolding run_def by (rule takeWhile_eq_take [symmetric])

lemma rmatch_field_tail:
  "\<exists>rest. rmatch ic s (Seq (Star Space) (Group (Star Dot))) (j, g) =
     (j + run Space s j + run Dot s (j + run Space s j),
      Some (j + run Space s j, j + run Space s j + run Dot s (j + run Space s j))) # rest"
  by simp

lemma match_at_field:
  assumes "i \<le> length s"
  shows "match_at True (field_pattern l) s i \<longleftrightarrow> occurs_at (l @ '':'') s i"
proof -
  obtain rest where t: "rmatch True s (Seq (Star Space) (Group (Star Dot))) (Suc (i + length l), None) =
     (Suc (i + length l) + run Space s (Suc (i + length l)) + run Dot s (Suc (i + length l) + run Space s (Suc (i + length l))),
      Some (Suc (i + length l) + run Space s (Suc (i + length l)), Suc (i + length l) + run Space s (Suc (i + length l)) + run Dot s (Suc (i + length l) + run Space s (Suc (i + length l))))) # rest"
    using rmatch_field_tail by blast
  show ?thesis
    unfolding match_at_def field_pattern_def rmatch_literal_seq [OF assms] rmatch_lit_seq
      occurs_at_snoc t
    by (auto simp add: lower_char_colon)
qed

lemma hd_rmatch_field:
  assumes "i \<le> length s" and "occurs_at (l @ '':'') s i"
  shows "group1 s (hd (rmatch True s (field_pattern l) (i, None))) =
           takeWhile (\<lambda>c. c \<noteq> CHR 0x0A) (dropWhile is_space (after_label l s i))"
proof -
  define j where "j = Suc (i + length l)"
  define b where "b = j + run Space s j"
  obtain rest where t: "rmatch True s (Seq (Star Space) (Group (Star Dot))) (j, None) =
      (b + run Dot s b, Some (b, b + run Dot s b)) # rest"
    unfolding b_def using rmatch_field_tail by blast
  from assms(2) have o: "occurs_at l s i \<and> i + length l < length s \<and>
      lower_char CHR '':'' = lower_char (s ! (i + length l))"
    by (simp add: occurs_at_snoc)
  have "rmatch True s (field_pattern l) (i, None) =
      rmatch True s (Seq (Star Space) (Group (Star Dot))) (j, None)"
    unfolding field_pattern_def rmatch_literal_seq [OF assms(1)] rmatch_lit_seq j_def
    using o by simp
  with t have "hd (rmatch True s (field_pattern l) (i, None)) =
      (b + run Dot s b, Some (b, b + run Dot s b))"
    by simp
  then have "group1 s (hd (rmatch True s (field_pattern l) (i, None))) =
      take (run Dot s b) (drop b s)"
    by (simp add: group1_def)
  also have "\<dots> = takeWhile (in_class Dot) (drop b s)"
    by (rule run_take)
  also have "drop b s = dropWhile (in_class Space) (drop j s)"
    unfolding b_def by (rule run_drop)
  finally show ?thesis
    by (simp add: after_label_def j_def in_class.simps [abs_def])
qed

lemma find_upt_None:
  assumes "\<And>i. i < n \<Longrightarrow> \<not> P i"
  shows "find P [0 ..< n] = None"
  using assms by (simp add: find_None_iff)

lemma find_upt_Some:
  assumes "P i" and "i < n" and "\<And>j. j < i \<Longrightarrow> \<not> P j"
  shows "find P [0 ..< n] = Some i"
proof -
  have "\<exists>k<length [0 ..< n]. P ([0 ..< n] ! k) \<and> i = [0 ..< n] ! k \<and> (\<forall>j<k. \<not> P ([0 ..< n] ! j))"
    using assms by (intro exI [of _ i]) simp
  then show ?thesis
    by (simp only: find_Some_iff)
qed

lemma extract_field_none:
  assumes "\<And>i. \<not> occurs_at (l @ '':'') text i"
  shows "extract_field text l = []"
proof -
  have "find (match_at True (field_pattern l) text) [0 ..< Suc (length text)] = None"
    by (rule find_upt_None) (simp add: match_at_field assms)
  then show ?thesis
    by (simp add: extract_field_def re_search_def)
qed

lemma extract_field_some:
  assumes "occurs_at (l @ '':'') text i" and "\<And>j. j < i \<Longrightarrow> \<not> occurs_at (l @ '':'') text j"
  shows "extract_field text l =
           str_strip (takeWhile (\<lambda>c. c \<noteq> CHR 0x0A) (dropWhile is_space (after_label l text i)))"
proof -
  from assms(1) have le: "i < Suc (length text)"
    by (simp add: occurs_at_def)
  have "find (match_at True (field_pattern l) text) [0 ..< Suc (length text)] = Some i"
  proof (rule find_upt_Some)
    show "match_at True (field_pattern l) text i"
      using le assms(1) by (simp add: match_at_field)
    show "i < Suc (length text)" by (rule le)
    show "\<not> match_at True (field_pattern l) text j" if "j < i" for j
      using that le assms(2) [of j] by (simp add: match_at_field)
  qed
  then have "extract_field text l =
      str_strip (group1 text (hd (rmatch True text (field_pattern l) (i, None))))"
    by (simp add: extract_field_def re_search_def)
  also have "group1 text (hd (rmatch True text (field_pattern l) (i, None))) =
      takeWhile (\<lambda>c. c \<noteq> CHR 0x0A) (dropWhile is_space (after_label l text i))"
    using le assms(1) by (intro hd_rmatch_field) simp_all
  finally show ?thesis .
qed

lemma str_strip_leading:
  assumes "\<And>c. c \<in> set w \<Longrightarrow> is_space c"
  shows "str_strip (w @ x) = str_strip x"
  using assms by (simp add: str_strip_def dropWhile_append2)

lemma same_line_remainder:
  assumes "CHR 0x0A \<notin> set (takeWhile is_space r)"
  shows "str_strip (takeWhile (\<lambda>c. c \<noteq> CHR 0x0A) (dropWhile is_space r)) =
         str_strip (takeWhile (\<lambda>c. c \<noteq> CHR 0x0A) r)"
proof -
  have "takeWhile (\<lambda>c. c \<noteq> CHR 0x0A) (takeWhile is_space r @ dropWhile is_space r) =
      takeWhile is_space r @ takeWhile (\<lambda>c. c \<noteq> CHR 0x0A) (dropWhile is_space r)"
    using assms by (intro takeWhile_append2) auto
  then have "takeWhile (\<lambda>c. c \<noteq> CHR 0x0A) r =
      takeWhile is_space r @ takeWhile (\<lambda>c. c \<noteq> CHR 0x0A) (dropWhile is_space r)"
    by simp
  moreover have "is_space c" if "c \<in> set (takeWhile is_space r)" for c
    using that by (rule set_takeWhileD [THEN conjunct2])
  ultimately show ?thesis
    by (simp add: str_strip_leading)
qed

text \<open>The tail \<open>\s*(\d+)\<close>: backing off from the whitespace never helps, since a whitespace
  character is not a digit, so the tail matches exactly when a digit follows all the
  whitespace, and then the group is the whole run of digits.\<close>

lemma space_not_digit: "is_space c \<Longrightarrow> \<not> is_digit c"
  by (auto simp add: is_space_def is_digit_def digits_def)

lemma run_Nil_iff: "run k s p = 0 \<longleftrightarrow> (case drop p s of [] \<Rightarrow> True | c # cs \<Rightarrow> \<not> in_class k c)"
  unfolding run_def by (cases "drop p s") simp_all

lemma run_digit_in_spaces:
  assumes "n < run Space s j"
  shows "run Digit s (j + n) = 0"
proof -
  let ?w = "takeWhile is_space (drop j s)"
  from assms have n: "n < length ?w"
    by (simp add: run_def in_class.simps [abs_def])
  then have "?w ! n \<in> set ?w"
    by (rule nth_mem)
  then have sp: "is_space (?w ! n)"
    by (rule set_takeWhileD [THEN conjunct2])
  have eq: "?w ! n = drop j s ! n"
    using n by (rule takeWhile_nth)
  have "length ?w \<le> length (drop j s)"
    by (rule length_takeWhile_le)
  with n have lt: "j + n < length s"
    by simp
  then have "drop j s ! n = s ! (j + n)"
    by simp
  with sp eq have "is_space (s ! (j + n))"
    by simp
  then have "\<not> is_digit (s ! (j + n))"
    by (rule space_not_digit)
  moreover from lt have "drop (j + n) s = s ! (j + n) # drop (Suc (j + n)) s"
    by (simp add: Cons_nth_drop_Suc)
  ultimately show ?thesis
    by (simp add: run_Nil_iff)
qed

lemma rmatch_group_plus:
  "rmatch ic s (Group (Plus k)) (p, g) =
     map (\<lambda>n. (p + n, Some (p, p + n))) (rev [1 ..< Suc (run k s p)])"
  by simp

lemma rmatch_group_plus_Nil:
  assumes "run k s p = 0"
  shows "rmatch ic s (Group (Plus k)) (p, g) = []"
  using assms by simp

lemma rmatch_group_plus_hd:
  assumes "run k s p \<noteq> 0"
  shows "\<exists>rest. rmatch ic s (Group (Plus k)) (p, g) =
           (p + run k s p, Some (p, p + run k s p)) # rest"
proof -
  from assms have "rev [1 ..< Suc (run k s p)] = run k s p # rev [1 ..< run k s p]"
    by simp
  then show ?thesis
    unfolding rmatch_group_plus by simp
qed

lemma concat_backoff_Nil:
  "concat (map (rmatch ic s (Group (Plus Digit)))
      (map (\<lambda>n. (j + n, g)) (rev [0 ..< run Space s j]))) = []"
proof -
  have "rmatch ic s (Group (Plus Digit)) (j + n, g) = []" if "n < run Space s j" for n
    using that by (intro rmatch_group_plus_Nil run_digit_in_spaces)
  then show ?thesis
    by (simp del: rmatch.simps)
qed

lemma rmatch_experience_tail:
  "rmatch ic s (Seq (Star Space) (Group (Plus Digit))) (j, g) =
     rmatch ic s (Group (Plus Digit)) (j + run Space s j, g)"
proof -
  have "rmatch ic s (Seq (Star Space) (Group (Plus Digit))) (j, g) =
      concat (map (rmatch ic s (Group (Plus Digit)))
        ((j + run Space s j, g) # map (\<lambda>n. (j + n, g)) (rev [0 ..< run Space s j])))"
    by simp
  also have "\<dots> = rmatch ic s (Group (Plus Digit)) (j + run Space s j, g) @
      concat (map (rmatch ic s (Group (Plus Digit)))
        (map (\<lambda>n. (j + n, g)) (rev [0 ..< run Space s j])))"
    by (simp del: rmatch.simps)
  finally show ?thesis
    by (simp only: concat_backoff_Nil append_Nil2)
qed

lemma digit_follows_run:
  "(case dropWhile is_space (after_label l s i) of [] \<Rightarrow> False | c # cs \<Rightarrow> is_digit c) \<longleftrightarrow>
     run Digit s (Suc (i + length l) + run Space s (Suc (i + length l))) \<noteq> 0"
proof -
  define d where "d = dropWhile is_space (after_label l s i)"
  have eq: "drop (Suc (i + length l) + run Space s (Suc (i + length l))) s = d"
    using run_drop [of "Suc (i + length l)" Space s]
    by (simp add: d_def after_label_def in_class.simps [abs_def])
  show ?thesis
    unfolding run_Nil_iff eq d_def [symmetric]
    by (cases d) simp_all
qed

lemma rmatch_number:
  assumes "i \<le> length s"
  shows "rmatch True s
           (Seq (literal l) (Seq (Lit CHR '':'') (Seq (Star Space) (Group (Plus Digit))))) (i, None) =
           (if occurs_at (l @ '':'') s i
            then rmatch True s (Group (Plus Digit))
                   (Suc (i + length l) + run Space s (Suc (i + length l)), None)
            else [])"
  unfolding rmatch_literal_seq [OF assms] rmatch_lit_seq rmatch_experience_tail occurs_at_snoc
  by (simp del: rmatch.simps)

lemma match_at_number:
  assumes "i \<le> length s"
  shows "match_at True
           (Seq (literal l) (Seq (Lit CHR '':'') (Seq (Star Space) (Group (Plus Digit))))) s i \<longleftrightarrow>
         occurs_at (l @ '':'') s i \<and>
         (case dropWhile is_space (after_label l s i) of [] \<Rightarrow> False | c # cs \<Rightarrow> is_digit c)"
proof (cases "run Digit s (Suc (i + length l) + run Space s (Suc (i + length l))) = 0")
  case True
  then show ?thesis
    unfolding match_at_def rmatch_number [OF assms] digit_follows_run
    by (simp add: rmatch_group_plus_Nil del: rmatch.simps)
next
  case False
  define b where "b = Suc (i + length l) + run Space s (Suc (i + length l))"
  from False have "run Digit s b \<noteq> 0"
    by (simp add: b_def)
  from rmatch_group_plus_hd [OF this] obtain rest where
    "rmatch True s (Group (Plus Digit)) (b, None) =
       (b + run Digit s b, Some (b, b + run Digit s b)) # rest"
    by blast
  with False show ?thesis
    unfolding match_at_def rmatch_number [OF assms] digit_follows_run b_def [symmetric]
    by (simp del: rmatch.simps)
qed

lemma hd_rmatch_number:
  assumes "i \<le> length s" and "occurs_at (l @ '':'') s i"
    and "case dropWhile is_space (after_label l s i) of [] \<Rightarrow> False | c # cs \<Rightarrow> is_digit c"
  shows "group1 s (hd (rmatch True s
           (Seq (literal l) (Seq (Lit CHR '':'') (Seq (Star Space) (Group (Plus Digit))))) (i, None))) =
           takeWhile is_digit (dropWhile is_space (after_label l s i))"
proof -
  define b where "b = Suc (i + length l) + run Space s (Suc (i + length l))"
  from assms(3) have d: "run Digit s b \<noteq> 0"
    unfolding digit_follows_run b_def .
  from rmatch_group_plus_hd [OF d] obtain rest where
    "rmatch True s (Group (Plus Digit)) (b, None) =
       (b + run Digit s b, Some (b, b + run Digit s b)) # rest"
    by blast
  with assms(2) have "hd (rmatch True s
      (Seq (literal l) (Seq (Lit CHR '':'') (Seq (Star Space) (Group (Plus Digit))))) (i, None)) =
      (b + run Digit s b, Some (b, b + run Digit s b))"
    unfolding rmatch_number [OF assms(1)] b_def [symmetric] by (simp del: rmatch.simps)
  then have "group1 s (hd (rmatch True s
      (Seq (literal l) (Seq (Lit CHR '':'') (Seq (Star Space) (Group (Plus Digit))))) (i, None))) =
      take (run Digit s b) (drop b s)"
    by (simp add: group1_def)
  also have "\<dots> = takeWhile (in_class Digit) (drop b s)"
    by (rule run_take)
  also have "drop b s = dropWhile (in_class Space) (drop (Suc (i + length l)) s)"
    unfolding b_def by (rule run_drop)
  finally show ?thesis
    by (simp add: after_label_def in_class.simps [abs_def])
qed

lemma match_at_experience:
  assumes "i \<le> length s"
  shows "match_at True experience_pattern s i \<longleftrightarrow> experience_at s i"
  using match_at_number [OF assms, of "''experience_years''"]
  unfolding experience_pattern_def experience_at_def by simp

lemma hd_rmatch_experience:
  assumes "i \<le> length s" and "experience_at s i"
  shows "group1 s (hd (rmatch True s experience_pattern (i, None))) =
           takeWhile is_digit (dropWhile is_space (after_label ''experience_years'' s i))"
proof -
  from assms(2) have o: "occurs_at (''experience_years'' @ '':'') s i"
    and d: "case dropWhile is_space (after_label ''experience_years'' s i) of
              [] \<Rightarrow> False | c # cs \<Rightarrow> is_digit c"
    unfolding experience_at_def by simp_all
  from hd_rmatch_number [OF assms(1) o d] show ?thesis
    unfolding experience_pattern_def .
qed

lemma experience_at_bound: "experience_at s i \<Longrightarrow> i < Suc (length s)"
  by (simp add: experience_at_def occurs_at_def)

lemma extract_experience_none:
  assumes "\<And>i. \<not> experience_at text i"
  shows "extract_experience text = Inr 0"
proof -
  have "find (match_at True experience_pattern text) [0 ..< Suc (length text)] = None"
    by (rule find_upt_None) (simp add: match_at_experience assms)
  then show ?thesis
    by (simp add: extract_experience_def re_search_def)
qed

lemma extract_experience_some:
  assumes "experience_at text i" and "\<And>j. j < i \<Longrightarrow> \<not> experience_at text j"
  shows "extract_experience text = py_int (digits_at text i)"
proof -
  from assms(1) have le: "i < Suc (length text)"
    by (rule experience_at_bound)
  have "find (match_at True experience_pattern text) [0 ..< Suc (length text)] = Some i"
  proof (rule find_upt_Some)
    show "match_at True experience_pattern text i"
      using le assms(1) by (simp add: match_at_experience)
    show "i < Suc (length text)" by (rule le)
    show "\<not> match_at True experience_pattern text j" if "j < i" for j
      using that le assms(2) [of j] by (simp add: match_at_experience)
  qed
  then have "extract_experience text =
      py_int (group1 text (hd (rmatch True text experience_pattern (i, None))))"
    by (simp add: extract_experience_def re_search_def)
  also have "group1 text (hd (rmatch True text experience_pattern (i, None))) = digits_at text i"
    unfolding digits_at_def using le assms(1) by (intro hd_rmatch_experience) simp_all
  finally show ?thesis .
qed

text \<open>What \<open>int\<close> makes of a string of digits: the number it writes in base ten, unless it
  is longer than the limit.\<close>

lemma digit_val_number: "is_digit c \<Longrightarrow> digit_val c = digit_number c"
  by (auto simp add: is_digit_def digits_def digit_val_def digit_number_def)

lemma foldl_decimal:
  "list_all is_digit ds \<Longrightarrow> foldl (\<lambda>a c. 10 * a + digit_val c) 0 ds = decimal ds"
  by (induction ds rule: rev_induct) (simp_all add: decimal_def digit_val_number)

lemma py_int_digits:
  assumes "list_all is_digit ds"
  shows "py_int ds = (if 4300 < length ds then Inl ValueError else Inr (decimal ds))"
  using foldl_decimal [OF assms] by (simp add: py_int_def int_max_str_digits_def)

lemma digits_at_digits: "list_all is_digit (digits_at text i)"
  unfolding digits_at_def list_all_iff by (auto dest: set_takeWhileD)

lemma extract_experience_value:
  assumes "experience_at text i" and "\<And>j. j < i \<Longrightarrow> \<not> experience_at text j"
  shows "extract_experience text =
           (if 4300 < length (digits_at text i) then Inl ValueError
            else Inr (decimal (digits_at text i)))"
  using extract_experience_some [OF assms] py_int_digits [OF digits_at_digits] by simp

lemma foldl_digits_nonneg:
  "0 \<le> a \<Longrightarrow> 0 \<le> foldl (\<lambda>a c. 10 * a + digit_val c) a s"
  by (induction s arbitrary: a) (simp_all add: digit_val_def)

lemma py_int_nonneg: "py_int s = Inr n \<Longrightarrow> 0 \<le> n"
  unfolding py_int_def using foldl_digits_nonneg [of 0 s] by (auto split: if_splits)

lemma extract_experience_nonneg: "extract_experience text = Inr n \<Longrightarrow> 0 \<le> n"
  unfolding extract_experience_def by (auto split: option.splits dest: py_int_nonneg)

text \<open>A number of \<open>n\<close> nines after the label: the digits read are those \<open>n\<close> nines.\<close>

lemma experience_at_nines:
  assumes "0 < n"
  shows "experience_at (nines_text n) 0 \<and> digits_at (nines_text n) 0 = replicate n CHR ''9''"
proof -
  have o: "occurs_at ''experience_years:'' (nines_text n) 0"
    by (simp add: occurs_at_def nines_text_def)
  have a: "after_label ''experience_years'' (nines_text n) 0 = CHR '' '' # replicate n CHR ''9''"
    by (simp add: after_label_def nines_text_def)
  have sp: "is_space CHR '' ''" and ns: "\<not> is_space CHR ''9''" and dg: "is_digit CHR ''9''"
    by (simp_all add: is_space_def is_digit_def digits_def)
  have d: "dropWhile is_space (CHR '' '' # replicate n CHR ''9'') = replicate n CHR ''9''"
    using sp ns by (simp add: dropWhile_replicate)
  from assms obtain k where k: "n = Suc k"
    by (cases n) simp_all
  have e: "experience_at (nines_text n) 0"
    unfolding experience_at_def a d using o dg by (simp add: k)
  have "digits_at (nines_text n) 0 = replicate n CHR ''9''"
    unfolding digits_at_def a d using dg by (simp add: takeWhile_replicate)
  with e show ?thesis by simp
qed

lemma extract_experience_nines:
  assumes "0 < n"
  shows "extract_experience (nines_text n) =
           (if 4300 < n then Inl ValueError else Inr (decimal (replicate n CHR ''9'')))"
proof -
  from experience_at_nines [OF assms]
  have e: "experience_at (nines_text n) 0"
    and d: "digits_at (nines_text n) 0 = replicate n CHR ''9''"
    by simp_all
  have "extract_experience (nines_text n) =
      (if 4300 < length (digits_at (nines_text n) 0) then Inl ValueError
       else Inr (decimal (digits_at (nines_text n) 0)))"
    using e by (intro extract_experience_value) simp_all
  then show ?thesis
    by (simp add: d)
qed

lemma all_upt_list_all: "list_all P [0 ..< n] \<Longrightarrow> j < n \<Longrightarrow> P j"
  by (simp add: list_all_iff)

text \<open>
  Claim C2. Where the text has no place at which \<open>experience_years:\<close> (in any letter case)
  is followed, after optional whitespace, by a digit, the result is 0; otherwise the digits
  at the first such place decide: up to 4300 of them give the number they write in base
  ten, and more than 4300 make \<open>int\<close> raise a \<open>ValueError\<close> that nothing catches, as for the
  text with 4301 nines. A result that is returned is never negative. In particular
  \<open>experience_years: 5\<close> gives 5 and \<open>no such field\<close> gives 0.
\<close>

theorem extract_experience_digit_limit:
  "extract_experience (''experience_years: '' @ replicate 4301 CHR ''9'') = Inl ValueError \<and>
   extract_experience ''experience_years: 5'' = Inr 5 \<and>
   extract_experience ''no such field'' = Inr 0 \<and>
   ((\<forall>i. \<not> experience_at text i) \<longrightarrow> extract_experience text = Inr 0) \<and>
   (experience_at text i \<and> (\<forall>j<i. \<not> experience_at text j) \<longrightarrow>
      extract_experience text =
        (if 4300 < length (digits_at text i) then Inl ValueError
         else Inr (decimal (digits_at text i)))) \<and>
   (extract_experience text = Inr n \<longrightarrow> 0 \<le> n)"
proof (intro conjI impI)
  have "extract_experience (nines_text 4301) = Inl ValueError"
    using extract_experience_nines [of 4301] by simp
  then show "extract_experience (''experience_years: '' @ replicate 4301 CHR ''9'') = Inl ValueError"
    by (simp only: nines_text_def)
  show "extract_experience ''experience_years: 5'' = Inr 5"
    by code_simp
  show "extract_experience ''no such field'' = Inr 0"
    by code_simp
  show "extract_experience text = Inr 0" if "\<forall>i. \<not> experience_at text i"
    using that by (intro extract_experience_none) simp
  show "extract_experience text =
      (if 4300 < length (digits_at text i) then Inl ValueError
       else Inr (decimal (digits_at text i)))"
    if "experience_at text i \<and> (\<forall>j<i. \<not> experience_at text j)"
    using that by (intro extract_experience_value) simp_all
  show "0 \<le> n" if "extract_experience text = Inr n"
    using that by (rule extract_experience_nonneg)
qed

text \<open>In \<open>sample_years\<close> the first label (offset 0) is followed by a letter and the second
  (offset 21) by \<open>0042\<close>: the result is 42. The text \<open>experience_years: 7\<close> gives 7, and a text
  with the label and no number gives 0.\<close>

theorem extract_experience_digit_limit_witness:
  "experience_at sample_years 21 \<and>
   extract_experience sample_years = Inr 42 \<and>
   extract_experience ''experience_years: 7'' = Inr 7 \<and>
   extract_experience ''experience_years: abc'' = Inr 0"
proof -
  have at: "experience_at sample_years 21"
    by code_simp
  have "list_all (\<lambda>j. \<not> experience_at sample_years j) [0 ..< 21]"
    by code_simp
  then have before: "\<forall>j<21. \<not> experience_at sample_years j"
    using all_upt_list_all by blast
  have ds: "digits_at sample_years 21 = ''0042''"
    by code_simp
  have v: "decimal ''0042'' = 42"
    by code_simp
  from at before extract_experience_digit_limit [of sample_years 21]
  have "extract_experience sample_years =
      (if 4300 < length (digits_at sample_years 21) then Inl ValueError
       else Inr (decimal (digits_at sample_years 21)))"
    by blast
  then have r: "extract_experience sample_years = Inr 42"
    unfolding ds v by simp
  have at7: "experience_at ''experience_years: 7'' 0"
    by code_simp
  have ds7: "digits_at ''experience_years: 7'' 0 = ''7''"
    by code_simp
  have v7: "decimal ''7'' = 7"
    by code_simp
  from at7 extract_experience_digit_limit [of "''experience_years: 7''" 0]
  have "extract_experience ''experience_years: 7'' =
      (if 4300 < length (digits_at ''experience_years: 7'' 0) then Inl ValueError
       else Inr (decimal (digits_at ''experience_years: 7'' 0)))"
    by blast
  then have s: "extract_experience ''experience_years: 7'' = Inr 7"
    unfolding ds7 v7 by simp
  have "list_all (\<lambda>j. \<not> experience_at ''experience_years: abc'' j)
      [0 ..< Suc (length ''experience_years: abc'')]"
    by code_simp
  then have "\<forall>i. \<not> experience_at ''experience_years: abc'' i"
    using all_upt_list_all experience_at_bound by blast
  with extract_experience_digit_limit [of "''experience_years: abc''" 0]
  have z: "extract_experience ''experience_years: abc'' = Inr 0"
    by blast
  from at r s z show ?thesis
    by (intro conjI)
qed

text \<open>When only whitespace follows the colon on its line, \<open>\s*\<close> runs over the line feed
  and the result is taken from the next line that has something on it.\<close>

lemma extract_field_runs_over_line_feed:
  "extract_field (''Name:'' @ [CHR 0x0A] @ ''Email: a@b.org'') ''Name'' = ''Email: a@b.org''"
  by code_simp

text \<open>
  Claim C1, as stated: every text that contains \<open>Name: Alice\<close> on a line gives \<open>Alice\<close>.
  It does not when the label occurs earlier in the text: the first occurrence decides.
\<close>

theorem extract_field_earlier_occurrence_counterexample:
  "extract_field (''Name: Bob'' @ [CHR 0x0A] @ ''Name: Alice'') ''Name'' = ''Bob''"
  by code_simp

text \<open>
  Claim C1, amended. For a label without pattern operators: when the text has no occurrence
  of the label followed by a colon (letter case ignored), the result is empty; otherwise
  the first occurrence decides, and when the whitespace after its colon holds no line feed,
  the result is the rest of that line, stripped. In particular, when the first \<open>name:\<close> of
  the text is the one of a line \<open>Name: Alice\<close> that ends there, the result is \<open>Alice\<close>; and a
  text without \<open>email:\<close> in any letter case gives the empty string for \<open>Email\<close>.
\<close>

theorem extract_field_first_occurrence:
  assumes "plain_label label"
  shows
    "((\<forall>i. \<not> occurs_at (label @ '':'') text i) \<longrightarrow> extract_field text label = []) \<and>
     (occurs_at (label @ '':'') text i \<and> (\<forall>j<i. \<not> occurs_at (label @ '':'') text j) \<and>
      CHR 0x0A \<notin> set (takeWhile is_space (after_label label text i)) \<longrightarrow>
        extract_field text label =
          str_strip (takeWhile (\<lambda>c. c \<noteq> CHR 0x0A) (after_label label text i))) \<and>
     (text = pre @ ''Name: Alice'' @ post \<and> takeWhile (\<lambda>c. c \<noteq> CHR 0x0A) post = [] \<and>
      (\<forall>j<length pre. \<not> occurs_at ''Name:'' text j) \<longrightarrow>
        extract_field text ''Name'' = ''Alice'') \<and>
     ((\<forall>i. \<not> occurs_at ''Email:'' text i) \<longrightarrow> extract_field text ''Email'' = [])"
proof (intro conjI impI)
  show "extract_field text label = []" if "\<forall>i. \<not> occurs_at (label @ '':'') text i"
    using that by (intro extract_field_none) simp
  show "extract_field text label =
      str_strip (takeWhile (\<lambda>c. c \<noteq> CHR 0x0A) (after_label label text i))"
    if h: "occurs_at (label @ '':'') text i \<and> (\<forall>j<i. \<not> occurs_at (label @ '':'') text j) \<and>
      CHR 0x0A \<notin> set (takeWhile is_space (after_label label text i))"
  proof -
    from h have "extract_field text label =
        str_strip (takeWhile (\<lambda>c. c \<noteq> CHR 0x0A) (dropWhile is_space (after_label label text i)))"
      by (intro extract_field_some) simp_all
    also from h have "\<dots> = str_strip (takeWhile (\<lambda>c. c \<noteq> CHR 0x0A) (after_label label text i))"
      by (intro same_line_remainder) simp
    finally show ?thesis .
  qed
  show "extract_field text ''Name'' = ''Alice''"
    if h: "text = pre @ ''Name: Alice'' @ post \<and> takeWhile (\<lambda>c. c \<noteq> CHR 0x0A) post = [] \<and>
      (\<forall>j<length pre. \<not> occurs_at ''Name:'' text j)"
  proof -
    from h have t: "text = pre @ ''Name: Alice'' @ post"
      by (rule conjunct1)
    from h have p: "takeWhile (\<lambda>c. c \<noteq> CHR 0x0A) post = []"
      by blast
    have ap: "''Name'' @ '':'' = ''Name:''"
      by simp
    from h have b: "\<not> occurs_at (''Name'' @ '':'') text j" if "j < length pre" for j
      unfolding ap using that by blast
    have lo: "str_lower ''Name:'' = ''name:''"
      by code_simp
    have o: "occurs_at (''Name'' @ '':'') text (length pre)"
      unfolding t occurs_at_def by (simp add: lo)
    have a: "after_label ''Name'' text (length pre) = '' Alice'' @ post"
      unfolding t after_label_def by simp
    have d: "dropWhile is_space ('' Alice'' @ post) = ''Alice'' @ post"
      by (simp add: is_space_def)
    have w: "takeWhile (\<lambda>c. c \<noteq> CHR 0x0A) (''Alice'' @ post) = ''Alice''"
      using p by simp
    have s: "str_strip ''Alice'' = ''Alice''"
      by code_simp
    from extract_field_some [OF o b] show ?thesis
      by (simp only: a d w s)
  qed
  show "extract_field text ''Email'' = []" if "\<forall>i. \<not> occurs_at ''Email:'' text i"
    using that by (intro extract_field_none) simp
qed

text \<open>In \<open>sample_text\<close> the label \<open>Email\<close> first occurs at offset 12, in upper case; the name
  line comes first and ends at the line feed.\<close>

theorem extract_field_first_occurrence_witness:
  "plain_label ''Email'' \<and> plain_label ''Name'' \<and>
   occurs_at ''Email:'' sample_text 12 \<and>
   extract_field sample_text ''Email'' = ''a@b.org'' \<and>
   extract_field sample_text ''Name'' = ''Alice'' \<and>
   extract_field ''Name: Alice'' ''Email'' = []"
proof -
  have pe: "plain_label ''Email''" by code_simp
  have pn: "plain_label ''Name''" by code_simp
  have at: "occurs_at (''Email'' @ '':'') sample_text 12"
    by code_simp
  have "list_all (\<lambda>j. \<not> occurs_at (''Email'' @ '':'') sample_text j) [0 ..< 12]"
    by code_simp
  then have before: "\<forall>j<12. \<not> occurs_at (''Email'' @ '':'') sample_text j"
    using all_upt_list_all by blast
  have nl: "CHR 0x0A \<notin> set (takeWhile is_space (after_label ''Email'' sample_text 12))"
    by code_simp
  have v: "str_strip (takeWhile (\<lambda>c. c \<noteq> CHR 0x0A) (after_label ''Email'' sample_text 12)) = ''a@b.org''"
    by code_simp
  from at before nl extract_field_first_occurrence [OF pe, of sample_text 12]
  have "extract_field sample_text ''Email'' =
      str_strip (takeWhile (\<lambda>c. c \<noteq> CHR 0x0A) (after_label ''Email'' sample_text 12))"
    by blast
  with v have e: "extract_field sample_text ''Email'' = ''a@b.org''"
    by simp
  have st: "sample_text = [] @ ''Name: Alice'' @ (CHR 0x0A # ''EMAIL:  a@b.org '')"
    by (simp add: sample_text_def)
  have tw: "takeWhile (\<lambda>c. c \<noteq> CHR 0x0A) (CHR 0x0A # ''EMAIL:  a@b.org '') = []"
    by simp
  have "extract_field sample_text ''Name'' = ''Alice''"
    using st tw extract_field_first_occurrence [OF pn, of sample_text 0 "[]" "CHR 0x0A # ''EMAIL:  a@b.org ''"]
    by simp
  then have n: "extract_field sample_text ''Name'' = ''Alice''" .
  have "list_all (\<lambda>j. \<not> occurs_at ''Email:'' ''Name: Alice'' j) [0 ..< Suc (length ''Name: Alice'')]"
    by code_simp
  moreover have "i < Suc (length ''Name: Alice'')" if "occurs_at ''Email:'' ''Name: Alice'' i" for i
    using that by (simp add: occurs_at_def)
  ultimately have "\<forall>i. \<not> occurs_at ''Email:'' ''Name: Alice'' i"
    using all_upt_list_all by blast
  with extract_field_first_occurrence [OF pe, of "''Name: Alice''" 0 "[]" "[]"]
  have z: "extract_field ''Name: Alice'' ''Email'' = []"
    by blast
  from pe pn at e n z show ?thesis
    by simp
qed

end
